theory Spec2Isabelle
  imports Main "HOL-Library.Sublist"
begin

section \<open>The Erowid report scraper (scrapeErowid.py)\<close>

text \<open>
  The script drives a browser over a list of report links, extracts seven fields from
  each page and merges them, in batches, into a CSV file that is deduplicated on its
  \<open>Link\<close> column. The embedding follows the script function by function.

  What lies outside the script is a parameter or an abstract value:
  \<^item> the web: \<open>driver_load\<close> says what \<open>driver.get(href)\<close> does for an address, a
    timeout or a loaded page;
  \<^item> the HTML parser: a loaded page carries, next to its source text and its resolved
    address, what each selector of the script finds in it;
  \<^item> pandas: \<open>read_csv\<close> and \<open>to_csv\<close> go between the contents of the report file
    (any type \<open>'f\<close>) and a table, a list of rows with the seven columns; a cell is a
    string or NaN;
  \<^item> Python's \<open>list(set(xs))\<close>: \<open>list_of_set\<close>, since the iteration order of a set of
    strings is not fixed by the language.
  Strings are \<open>char list\<close>, a character read as a code point below 256.
\<close>

subsection \<open>Python string operations used by the script\<close>

definition startswith :: "string \<Rightarrow> string \<Rightarrow> bool" where
  "startswith s p = (take (length p) s = p)"

text \<open>\<open>sub in s\<close>\<close>

fun contains :: "string \<Rightarrow> string \<Rightarrow> bool" where
  "contains sub [] = (sub = [])"
| "contains sub (c # cs) = (startswith (c # cs) sub \<or> contains sub cs)"

text \<open>\<open>str.isspace\<close> on the code points below 256.\<close>

definition isspace :: "char \<Rightarrow> bool" where
  "isspace c = ((of_char c :: nat) \<in> set [9, 10, 11, 12, 13, 28, 29, 30, 31, 32, 133, 160])"

definition strip :: "string \<Rightarrow> string" where
  "strip s = rev (dropWhile isspace (rev (dropWhile isspace s)))"

text \<open>
  \<open>s.replace(old, new)\<close>: occurrences are taken left to right and do not overlap. The
  counter is the number of characters of a matched occurrence still to be passed over.
\<close>

fun replace_from :: "string \<Rightarrow> string \<Rightarrow> nat \<Rightarrow> string \<Rightarrow> string" where
  "replace_from old new k [] = []"
| "replace_from old new (Suc k) (c # cs) = replace_from old new k cs"
| "replace_from old new 0 (c # cs) =
     (if startswith (c # cs) old then new @ replace_from old new (length old - 1) cs
      else c # replace_from old new 0 cs)"

definition replace :: "string \<Rightarrow> string \<Rightarrow> string \<Rightarrow> string" where
  "replace s old new =
     (if old = [] then new @ concat (map (\<lambda>c. c # new) s) else replace_from old new 0 s)"

text \<open>\<open>s.split(sep)\<close> for a separator that is not empty (the script splits on \<open>": "\<close>).\<close>

fun split_from :: "string \<Rightarrow> nat \<Rightarrow> string \<Rightarrow> string \<Rightarrow> string list" where
  "split_from sep k cur [] = [cur]"
| "split_from sep (Suc k) cur (c # cs) = split_from sep k cur cs"
| "split_from sep 0 cur (c # cs) =
     (if startswith (c # cs) sep then cur # split_from sep (length sep - 1) [] cs
      else split_from sep 0 (cur @ [c]) cs)"

definition split :: "string \<Rightarrow> string \<Rightarrow> string list" where
  "split s sep = split_from sep 0 [] s"

text \<open>\<open>sep.join(xs)\<close>\<close>

fun join :: "string \<Rightarrow> string list \<Rightarrow> string" where
  "join sep [] = []"
| "join sep [x] = x"
| "join sep (x # y # ys) = x @ sep @ join sep (y # ys)"

text \<open>
  \<open>s.splitlines()\<close>: a line ends at \<open>\n\<close>, \<open>\r\<close>, \<open>\r\n\<close>, \<open>\v\<close>, \<open>\f\<close>, the separators
  \<open>\x1c\<close>, \<open>\x1d\<close>, \<open>\x1e\<close> and \<open>\x85\<close>; a last line that is empty is not returned.
\<close>

definition linebreak :: "char \<Rightarrow> bool" where
  "linebreak c = ((of_char c :: nat) \<in> set [10, 11, 12, 13, 28, 29, 30, 133])"

fun splitlines_from :: "string \<Rightarrow> string \<Rightarrow> string list" where
  "splitlines_from cur [] = (if cur = [] then [] else [cur])"
| "splitlines_from cur (c # cs) =
     (if c = CHR 0x0D \<and> cs \<noteq> [] \<and> hd cs = CHR 0x0A then cur # splitlines_from [] (tl cs)
      else if linebreak c then cur # splitlines_from [] cs
      else splitlines_from (cur @ [c]) cs)"

definition splitlines :: "string \<Rightarrow> string list" where
  "splitlines s = splitlines_from [] s"

subsection \<open>Data: rows, tables, pages\<close>

text \<open>A cell of the data frame: a string, or \<open>None\<close> for NaN.\<close>

type_synonym cell = "string option"

record row =
  Title :: cell
  Substance :: cell
  Author :: cell
  Bodyweight :: cell
  Dose_Chart :: cell
  Report_Text :: cell
  Link :: cell

type_synonym table = "row list"

text \<open>
  A loaded page: \<open>driver.page_source\<close>, \<open>driver.current_url\<close>, and what the selectors
  find. \<open>anchors\<close> are the \<open>a\<close> elements with an \<open>href\<close> attribute, as pairs of the
  attribute's text and the resolved address \<open>get_attribute('href')\<close> returns; \<open>h2\<close> is
  the text of the first \<open>h2\<close> element; \<open>dosechart_rows\<close> gives, for every row that
  \<open>table.dosechart tbody tr\<close> selects, the texts of its \<open>td\<close> cells;
  \<open>report_text_strings\<close> are the \<open>stripped_strings\<close> of the report text element.
\<close>

record page =
  page_source :: string
  current_url :: string
  anchors :: "(string \<times> string) list"
  h2 :: "string option"
  div_title :: "string option"
  div_substance :: "string option"
  div_author :: "string option"
  td_bodyweight :: "string option"
  dosechart_rows :: "string list list"
  report_text_strings :: "string list option"

datatype fetch_result = Timeout | Loaded page

datatype py_error = TimeoutException | AttributeError

text \<open>One constructor for each \<open>print\<close> of the script.\<close>

datatype event =
    Loading_existing_links
  | Scraping_index string
  | Finished_gathering
  | Remaining nat
  | Skipping_invalid string
  | Timeout_skipping string
  | IP_banned string
  | Process_stopped nat
  | Redirected string
  | Saved_batch nat
  | Finished_scraping nat
  | Removed_duplicates int

record 'f env =
  list_of_set :: "string list \<Rightarrow> string list"
  driver_load :: "string \<Rightarrow> fetch_result"
  read_csv :: "'f \<Rightarrow> table"
  to_csv :: "table \<Rightarrow> 'f"

text \<open>
  The state outside the script's variables: the two files (\<open>None\<close> when the file does
  not exist), the addresses passed to \<open>driver.get\<close> in order, the number of calls of
  \<open>driver.quit\<close>, and the console.
\<close>

record 'f world =
  links_file :: "string option"
  reports_file :: "'f option"
  driver_gets :: "string list"
  driver_quits :: nat
  console :: "event list"

definition print :: "event \<Rightarrow> 'f world \<Rightarrow> 'f world" where
  "print e w = w\<lparr>console := console w @ [e]\<rparr>"

definition driver_get :: "string \<Rightarrow> 'f world \<Rightarrow> 'f world" where
  "driver_get href w = w\<lparr>driver_gets := driver_gets w @ [href]\<rparr>"

definition driver_quit :: "'f world \<Rightarrow> 'f world" where
  "driver_quit w = w\<lparr>driver_quits := Suc (driver_quits w)\<rparr>"

definition BASE_URL :: string where
  "BASE_URL = ''https://www.erowid.org/experiences/exp.cgi?ShowViews=0&Cellar=0&Start=0&Max=39877''"

definition BATCH_SIZE :: nat where
  "BATCH_SIZE = 100"

definition erowid :: string where
  "erowid = ''https://www.erowid.org''"

definition ban_signature :: string where
  "ban_signature = ''403 Forbidden: Your IP Address Has Been Blocked''"

subsection \<open>pandas: \<open>dropna\<close> and \<open>drop_duplicates(subset="Link")\<close>\<close>

fun dropna :: "cell list \<Rightarrow> string list" where
  "dropna [] = []"
| "dropna (None # cs) = dropna cs"
| "dropna (Some s # cs) = s # dropna cs"

text \<open>
  The first row of every \<open>Link\<close> value is kept, in order; NaN counts as one value.
  \<open>seen\<close> holds the values of the rows passed so far.
\<close>

fun drop_duplicates_from :: "cell set \<Rightarrow> table \<Rightarrow> table" where
  "drop_duplicates_from seen [] = []"
| "drop_duplicates_from seen (r # rs) =
     (if Link r \<in> seen then drop_duplicates_from seen rs
      else r # drop_duplicates_from (insert (Link r) seen) rs)"

definition drop_duplicates :: "table \<Rightarrow> table" where
  "drop_duplicates df = drop_duplicates_from {} df"

subsection \<open>\<open>get_all_report_links\<close>\<close>

definition get_all_report_links ::
  "'f env \<Rightarrow> string \<Rightarrow> 'f world \<Rightarrow> (py_error + string list) \<times> 'f world" where
  "get_all_report_links E start_url w =
     (case links_file w of
        Some txt \<Rightarrow>
          (Inr (list_of_set E (splitlines txt)), print Loading_existing_links w)
      | None \<Rightarrow>
          (case driver_load E start_url of
             Timeout \<Rightarrow> (Inl TimeoutException, driver_get start_url w)
           | Loaded pg \<Rightarrow>
               let w1 = print (Scraping_index (current_url pg)) (driver_get start_url w);
                   page_links = filter (\<lambda>(attr, href). contains ''exp.php?ID='' attr) (anchors pg);
                   report_links = filter (\<lambda>href. startswith href erowid) (map snd page_links);
                   w2 = print Finished_gathering w1;
                   report_links = list_of_set E report_links
               in (Inr report_links, w2\<lparr>links_file := Some (join ''\<newline>'' report_links)\<rparr>)))"

subsection \<open>\<open>scrape_erowid_reports\<close>\<close>

text \<open>
  Lines 93 to 126: the seven fields of one page. Every selector result is tested
  before it is used, and the operations on the texts are total, so nothing between
  \<open>try\<close> and \<open>except\<close> raises here: the handler of lines 129 to 131 has no branch in
  the model.
\<close>

definition dose_chart_entries :: "page \<Rightarrow> string list" where
  "dose_chart_entries pg =
     map (\<lambda>cols. join '' | '' (map strip cols))
       (filter (\<lambda>cols. length cols = 5) (dosechart_rows pg))"

definition extract_fields :: "page \<Rightarrow> string \<Rightarrow> row" where
  "extract_fields pg href =
     \<lparr> Title = Some (case div_title pg of Some t \<Rightarrow> strip t | None \<Rightarrow> ''Unknown Title''),
       Substance = Some (case div_substance pg of Some t \<Rightarrow> strip t | None \<Rightarrow> ''Unknown Substance''),
       Author = Some (case div_author pg of Some t \<Rightarrow> strip (replace t ''by'' '''') | None \<Rightarrow> ''Unknown''),
       Bodyweight = Some (case td_bodyweight pg of Some t \<Rightarrow> strip t | None \<Rightarrow> ''Unknown''),
       Dose_Chart = Some (if dose_chart_entries pg \<noteq> [] then join ''\<newline>'' (dose_chart_entries pg)
                          else ''No Dose Chart Available''),
       Report_Text = Some (case report_text_strings pg of Some ss \<Rightarrow> concat ss
                           | None \<Rightarrow> ''No Text Available''),
       Link = Some href \<rparr>"

text \<open>The variables of \<open>scrape_erowid_reports\<close>, with the world.\<close>

record 'f scrape_state =
  all_data :: "row list"
  processed_count :: nat
  scraped_links :: "string set"
  wld :: "'f world"

definition on_world :: "('f world \<Rightarrow> 'f world) \<Rightarrow> 'f scrape_state \<Rightarrow> 'f scrape_state" where
  "on_world f st = st\<lparr>wld := f (wld st)\<rparr>"

text \<open>Lines 134 to 145, entered when the condition of line 134 holds.\<close>

definition save_batch :: "'f env \<Rightarrow> nat \<Rightarrow> 'f scrape_state \<Rightarrow> 'f scrape_state" where
  "save_batch E i st =
     (let df_batch = all_data st;
          written =
            (case reports_file (wld st) of
               Some f \<Rightarrow> to_csv E (drop_duplicates (read_csv E f @ df_batch))
             | None \<Rightarrow> to_csv E (drop_duplicates df_batch))
      in on_world (print (Saved_batch (i + 1)))
           (st\<lparr>all_data := [], wld := (wld st)\<lparr>reports_file := Some written\<rparr>\<rparr>))"

text \<open>
  How one pass through the loop body ends: \<open>continue\<close> or the end of the body, \<open>break\<close>,
  or an exception that nothing catches. Line 83 reads \<open>soup.find("h2").text\<close> outside
  every \<open>try\<close>; when the page has no \<open>h2\<close> element this is an attribute of \<open>None\<close>.
  Of the exceptions of \<open>driver.get\<close> only the timeout is modelled, the one the script
  handles.
\<close>

datatype 'a ctl = Next 'a | Break 'a | Raise py_error 'a

definition body :: "'f env \<Rightarrow> nat \<Rightarrow> nat \<Rightarrow> string \<Rightarrow> 'f scrape_state \<Rightarrow> 'f scrape_state ctl" where
  "body E n i href st =
     (if href \<in> scraped_links st then Next st
      else if \<not> startswith href erowid then Next (on_world (print (Skipping_invalid href)) st)
      else
        (case driver_load E href of
           Timeout \<Rightarrow> Next (on_world (print (Timeout_skipping href)) (on_world (driver_get href) st))
         | Loaded pg \<Rightarrow>
             let st1 = on_world (driver_get href) st in
             if contains ban_signature (page_source pg) then
               (case h2 pg of
                  None \<Rightarrow> Raise AttributeError st1
                | Some t \<Rightarrow>
                    let ip_address = strip (last (split t '': ''))
                    in Break (on_world driver_quit
                         (on_world (print (Process_stopped (processed_count st1)))
                           (on_world (print (IP_banned ip_address)) st1))))
             else if contains ''reset.me'' (current_url pg) \<or> contains ''wordpress.com'' (current_url pg)
             then Next (on_world (print (Redirected (current_url pg))) st1)
             else
               let st2 = st1\<lparr>all_data := all_data st1 @ [extract_fields pg href],
                             processed_count := processed_count st1 + 1,
                             scraped_links := insert href (scraped_links st1)\<rparr>
               in if (i + 1) mod BATCH_SIZE = 0 \<or> i + 1 = n then Next (save_batch E i st2)
                  else Next st2))"

text \<open>
  The \<open>for\<close> loop over \<open>enumerate(report_links)\<close>: \<open>n\<close> is \<open>len(report_links)\<close>, \<open>i\<close>
  the index of the head of the links still to visit.
\<close>

datatype outcome = Completed | Banned | Crashed py_error

fun scrape_loop ::
  "'f env \<Rightarrow> nat \<Rightarrow> nat \<Rightarrow> string list \<Rightarrow> 'f scrape_state \<Rightarrow> outcome \<times> 'f scrape_state" where
  "scrape_loop E n i [] st = (Completed, st)"
| "scrape_loop E n i (href # rest) st =
     (case body E n i href st of
        Next st' \<Rightarrow> scrape_loop E n (Suc i) rest st'
      | Break st' \<Rightarrow> (Banned, st')
      | Raise e st' \<Rightarrow> (Crashed e, st'))"

text \<open>Lines 50 to 55: the links of the report file that are not NaN.\<close>

definition load_scraped_links :: "'f env \<Rightarrow> 'f world \<Rightarrow> string set" where
  "load_scraped_links E w =
     (case reports_file w of
        Some f \<Rightarrow> set (dropna (map Link (read_csv E f)))
      | None \<Rightarrow> {})"

text \<open>Lines 57 to 59: the links the loop runs over.\<close>

definition pending :: "'f env \<Rightarrow> string list \<Rightarrow> 'f world \<Rightarrow> string list" where
  "pending E report_links w =
     filter (\<lambda>link. link \<notin> load_scraped_links E w) (list_of_set E report_links)"

definition scrape_erowid_reports ::
  "'f env \<Rightarrow> string list \<Rightarrow> 'f world \<Rightarrow> py_error option \<times> 'f world" where
  "scrape_erowid_reports E report_links w =
     (let st0 = \<lparr>all_data = [], processed_count = 0,
                 scraped_links = load_scraped_links E w, wld = w\<rparr>;
          report_links = pending E report_links w;
          st1 = on_world (print (Remaining (length report_links))) st0
      in case scrape_loop E (length report_links) 0 report_links st1 of
           (Crashed e, st) \<Rightarrow> (Some e, wld st)
         | (_, st) \<Rightarrow>
             (None, driver_quit (print (Finished_scraping (processed_count st)) (wld st))))"

subsection \<open>\<open>remove_duplicates_from_csv\<close> and the script's last three lines\<close>

definition remove_duplicates_from_csv :: "'f env \<Rightarrow> 'f world \<Rightarrow> 'f world" where
  "remove_duplicates_from_csv E w =
     (case reports_file w of
        None \<Rightarrow> w
      | Some f \<Rightarrow>
          let df = read_csv E f;
              before = length df;
              df = drop_duplicates df;
              w1 = w\<lparr>reports_file := Some (to_csv E df)\<rparr>;
              after = length df
          in print (Removed_duplicates (int before - int after)) w1)"

definition main :: "'f env \<Rightarrow> 'f world \<Rightarrow> py_error option \<times> 'f world" where
  "main E w =
     (case get_all_report_links E BASE_URL w of
        (Inl e, w1) \<Rightarrow> (Some e, w1)
      | (Inr report_links, w1) \<Rightarrow>
          (case scrape_erowid_reports E report_links w1 of
             (Some e, w2) \<Rightarrow> (Some e, w2)
           | (None, w2) \<Rightarrow> (None, remove_duplicates_from_csv E w2)))"

text \<open>The table a world's report file holds; no rows when there is no file.\<close>

definition report_table :: "'f env \<Rightarrow> 'f world \<Rightarrow> table" where
  "report_table E w = (case reports_file w of Some f \<Rightarrow> read_csv E f | None \<Rightarrow> [])"

text \<open>
  Reading back what \<open>to_csv\<close> wrote gives the table that was written. The theorems
  about the contents of the report file rest on this property of the two pandas
  functions.
\<close>

definition roundtrip :: "'f env \<Rightarrow> bool" where
  "roundtrip E = (\<forall>df. read_csv E (to_csv E df) = df)"

subsection \<open>Predicates and concrete inputs used in the statements\<close>

text \<open>\<open>list(set(xs))\<close> lists every element of \<open>xs\<close> once, in some order.\<close>

definition lists_set :: "'f env \<Rightarrow> string list \<Rightarrow> bool" where
  "lists_set E xs = (distinct (list_of_set E xs) \<and> set (list_of_set E xs) = set xs)"

text \<open>
  A link the loop extracts a record from: it has the site's prefix and loads a page
  with neither the ban signature nor an off-site address.
\<close>

definition extractable :: "'f env \<Rightarrow> string \<Rightarrow> bool" where
  "extractable E href =
     (startswith href erowid \<and>
      (case driver_load E href of
         Timeout \<Rightarrow> False
       | Loaded pg \<Rightarrow>
           \<not> contains ban_signature (page_source pg) \<and>
           \<not> contains ''reset.me'' (current_url pg) \<and>
           \<not> contains ''wordpress.com'' (current_url pg)))"

text \<open>The batch numbers of the flushes a console shows, in order.\<close>

fun flushes :: "event list \<Rightarrow> nat list" where
  "flushes [] = []"
| "flushes (Saved_batch k # es) = k # flushes es"
| "flushes (e # es) = flushes es"

text \<open>The state in which \<open>scrape_erowid_reports\<close> enters its loop.\<close>

definition loop_entry :: "'f env \<Rightarrow> string list \<Rightarrow> 'f world \<Rightarrow> 'f scrape_state" where
  "loop_entry E report_links w =
     on_world (print (Remaining (length (pending E report_links w))))
       \<lparr>all_data = [], processed_count = 0, scraped_links = load_scraped_links E w, wld = w\<rparr>"

text \<open>
  Invariants of the loop. The links of the buffer and of the file are links marked as
  scraped, and no row of the buffer has a link that a row of the file has.
\<close>

definition buffer_fresh :: "'f env \<Rightarrow> 'f scrape_state \<Rightarrow> bool" where
  "buffer_fresh E st =
     (Link ` set (all_data st) \<subseteq> Some ` scraped_links st \<and>
      Link ` set (report_table E (wld st)) \<subseteq> insert None (Some ` scraped_links st) \<and>
      Link ` set (all_data st) \<inter> Link ` set (report_table E (wld st)) = {})"

text \<open>No row of the buffer or of the file has the link \<open>href\<close>.\<close>

definition absent :: "'f env \<Rightarrow> string \<Rightarrow> 'f scrape_state \<Rightarrow> bool" where
  "absent E href st =
     (Some href \<notin> Link ` set (all_data st) \<and> Some href \<notin> Link ` set (report_table E (wld st)))"

text \<open>
  Concrete inputs. The report file holds the table itself (\<open>read_csv\<close> and \<open>to_csv\<close>
  change nothing), and \<open>list(set(xs))\<close> keeps the last occurrence of every element, in
  the order of \<open>xs\<close>.
\<close>

definition demo_env :: "(string \<Rightarrow> fetch_result) \<Rightarrow> table env" where
  "demo_env web = \<lparr>list_of_set = remdups, driver_load = web, read_csv = (\<lambda>f. f), to_csv = (\<lambda>df. df)\<rparr>"

definition fresh_world :: "table world" where
  "fresh_world = \<lparr>links_file = None, reports_file = None, driver_gets = [], driver_quits = 0, console = []\<rparr>"

definition link_a :: string where
  "link_a = ''https://www.erowid.org/experiences/exp.php?ID=1''"

definition link_b :: string where
  "link_b = ''https://www.erowid.org/experiences/exp.php?ID=2''"

definition link_c :: string where
  "link_c = ''https://www.erowid.org/experiences/exp.php?ID=3''"

definition page_report :: page where
  "page_report =
     \<lparr>page_source = ''<html><div class=title> First Time </div></html>'',
      current_url = ''https://www.erowid.org/experiences/exp.php?ID=1'',
      anchors = [],
      h2 = None,
      div_title = Some '' First Time '',
      div_substance = Some ''Cannabis'',
      div_author = None,
      td_bodyweight = None,
      dosechart_rows = [],
      report_text_strings = Some [''It was'', ''fine.'']\<rparr>"

definition page_blocked :: page where
  "page_blocked =
     \<lparr>page_source = ''<h2>403 Forbidden: Your IP Address Has Been Blocked: 10.0.0.7</h2>'',
      current_url = ''https://www.erowid.org/experiences/exp.php?ID=3'',
      anchors = [],
      h2 = Some ''403 Forbidden: Your IP Address Has Been Blocked: 10.0.0.7'',
      div_title = None,
      div_substance = None,
      div_author = None,
      td_bodyweight = None,
      dosechart_rows = [],
      report_text_strings = None\<rparr>"

definition page_blocked_plain :: page where
  "page_blocked_plain =
     \<lparr>page_source = ''<p>403 Forbidden: Your IP Address Has Been Blocked</p>'',
      current_url = ''https://www.erowid.org/experiences/exp.php?ID=3'',
      anchors = [],
      h2 = None,
      div_title = None,
      div_substance = None,
      div_author = None,
      td_bodyweight = None,
      dosechart_rows = [],
      report_text_strings = None\<rparr>"

definition row_of :: "string \<Rightarrow> string \<Rightarrow> row" where
  "row_of t l =
     \<lparr>Title = Some t, Substance = Some ''Cannabis'', Author = Some ''Unknown'',
      Bodyweight = Some ''Unknown'', Dose_Chart = Some ''No Dose Chart Available'',
      Report_Text = Some ''It was fine.'', Link = Some l\<rparr>"

text \<open>
  The state after lines 74 to 128 have run for a link whose page \<open>pg\<close> is extracted:
  the page is fetched, its record appended to the buffer, the link counted and marked.
\<close>

definition extracted :: "page \<Rightarrow> string \<Rightarrow> 'f scrape_state \<Rightarrow> 'f scrape_state" where
  "extracted pg href st =
     (on_world (driver_get href) st)
       \<lparr>all_data := all_data st @ [extract_fields pg href],
        processed_count := processed_count st + 1,
        scraped_links := insert href (scraped_links st)\<rparr>"


text \<open>A web in which \<open>link_a\<close> loads a report and every other address times out.\<close>

definition web_a_only :: "string \<Rightarrow> fetch_result" where
  "web_a_only href = (if href = link_a then Loaded page_report else Timeout)"

text \<open>The state a pass through the loop body ends in, however it ends.\<close>

fun ctl_state :: "'a ctl \<Rightarrow> 'a" where
  "ctl_state (Next st) = st"
| "ctl_state (Break st) = st"
| "ctl_state (Raise e st) = st"

text \<open>A web in which \<open>link_a\<close> loads a report and every other address the blocked page.\<close>

definition web_a_then_blocked :: "string \<Rightarrow> fetch_result" where
  "web_a_then_blocked href = (if href = link_a then Loaded page_report else Loaded page_blocked)"

text \<open>A link whose page carries the ban signature.\<close>

definition blocked :: "'f env \<Rightarrow> string \<Rightarrow> bool" where
  "blocked E href =
     (case driver_load E href of
        Timeout \<Rightarrow> False
      | Loaded pg \<Rightarrow> contains ban_signature (page_source pg))"

text \<open>As \<open>demo_env\<close>, but \<open>list(set(xs))\<close> lists the elements in the opposite order.\<close>

definition demo_env_rev :: "(string \<Rightarrow> fetch_result) \<Rightarrow> table env" where
  "demo_env_rev web = (demo_env web)\<lparr>list_of_set := (\<lambda>xs. rev (remdups xs))\<rparr>"


section \<open>Properties\<close>

subsection \<open>Projections of the world and of the loop state\<close>

lemma world_simps:
  "reports_file (print e w) = reports_file w"
  "links_file (print e w) = links_file w"
  "driver_gets (print e w) = driver_gets w"
  "driver_quits (print e w) = driver_quits w"
  "console (print e w) = console w @ [e]"
  "reports_file (driver_get h w) = reports_file w"
  "links_file (driver_get h w) = links_file w"
  "driver_gets (driver_get h w) = driver_gets w @ [h]"
  "driver_quits (driver_get h w) = driver_quits w"
  "console (driver_get h w) = console w"
  "reports_file (driver_quit w) = reports_file w"
  "links_file (driver_quit w) = links_file w"
  "driver_gets (driver_quit w) = driver_gets w"
  "driver_quits (driver_quit w) = Suc (driver_quits w)"
  "console (driver_quit w) = console w"
  by (simp_all add: print_def driver_get_def driver_quit_def)

lemma on_world_simps:
  "all_data (on_world f st) = all_data st"
  "processed_count (on_world f st) = processed_count st"
  "scraped_links (on_world f st) = scraped_links st"
  "wld (on_world f st) = f (wld st)"
  by (simp_all add: on_world_def)

lemma report_table_simps:
  "report_table E (print e w) = report_table E w"
  "report_table E (driver_get h w) = report_table E w"
  "report_table E (driver_quit w) = report_table E w"
  by (simp_all add: report_table_def world_simps)

lemma roundtrip_demo_env: "roundtrip (demo_env web)"
  by (simp add: roundtrip_def demo_env_def)

subsection \<open>Dropping duplicate links\<close>

lemma Link_drop_duplicates_from:
  "Link ` set (drop_duplicates_from seen df) = Link ` set df - seen"
  by (induction df arbitrary: seen) auto

lemma distinct_drop_duplicates_from:
  "distinct (map Link (drop_duplicates_from seen df))"
  by (induction df arbitrary: seen) (auto simp: Link_drop_duplicates_from)


lemma distinct_drop_duplicates: "distinct (map Link (drop_duplicates df))"
  by (simp add: drop_duplicates_def distinct_drop_duplicates_from)

lemma Link_drop_duplicates: "Link ` set (drop_duplicates df) = Link ` set df"
  by (simp add: drop_duplicates_def Link_drop_duplicates_from)


subsection \<open>The cleanup pass\<close>

lemma reports_file_cleanup:
  "reports_file (remove_duplicates_from_csv E w) =
     map_option (\<lambda>f. to_csv E (drop_duplicates (read_csv E f))) (reports_file w)"
  by (simp add: remove_duplicates_from_csv_def Let_def world_simps split: option.splits)

text \<open>
  C1. Whatever report file \<open>remove_duplicates_from_csv\<close> leaves behind, the table read
  from it has no two rows with the same value in its \<open>Link\<close> column (NaN counts as a
  value, as it does for pandas).
\<close>

theorem cleanup_links_unique:
  assumes "roundtrip E"
    and "reports_file (remove_duplicates_from_csv E w) = Some f'"
  shows "distinct (map Link (read_csv E f'))"
proof -
  from assms(2) obtain f where "f' = to_csv E (drop_duplicates (read_csv E f))"
    by (auto simp: reports_file_cleanup)
  with assms(1) have "read_csv E f' = drop_duplicates (read_csv E f)"
    by (simp add: roundtrip_def)
  then show ?thesis
    by (simp add: distinct_drop_duplicates)
qed

theorem cleanup_links_unique_witness:
  "roundtrip (demo_env (\<lambda>h. Timeout)) \<and>
   reports_file (remove_duplicates_from_csv (demo_env (\<lambda>h. Timeout))
       (fresh_world\<lparr>reports_file :=
          Some [row_of ''one'' link_a, row_of ''two'' link_b, row_of ''three'' link_a]\<rparr>))
     = Some [row_of ''one'' link_a, row_of ''two'' link_b] \<and>
   distinct (map Link (read_csv (demo_env (\<lambda>h. Timeout))
       [row_of ''one'' link_a, row_of ''two'' link_b]))"
proof -
  let ?E = "demo_env (\<lambda>h. Timeout)"
  let ?w = "fresh_world\<lparr>reports_file :=
    Some [row_of ''one'' link_a, row_of ''two'' link_b, row_of ''three'' link_a]\<rparr>"
  have r: "roundtrip ?E"
    by (simp add: roundtrip_def demo_env_def)
  have f: "reports_file (remove_duplicates_from_csv ?E ?w)
      = Some [row_of ''one'' link_a, row_of ''two'' link_b]"
    by (simp add: remove_duplicates_from_csv_def demo_env_def fresh_world_def print_def
        drop_duplicates_def row_of_def link_a_def link_b_def)
  from r f cleanup_links_unique [OF r f] show ?thesis
    by simp
qed



subsection \<open>The link file\<close>

text \<open>
  C8. When the link file exists, \<open>get_all_report_links\<close> returns the lines of the
  file, each once, as \<open>list(set(...))\<close> lists them; it fetches no page and writes no
  file.
\<close>

theorem existing_links_file_is_loaded:
  assumes "links_file w = Some txt"
    and "lists_set E (splitlines txt)"
  shows "(\<exists>ls. fst (get_all_report_links E start_url w) = Inr ls \<and> distinct ls \<and>
            set ls = set (splitlines txt)) \<and>
         driver_gets (snd (get_all_report_links E start_url w)) = driver_gets w \<and>
         links_file (snd (get_all_report_links E start_url w)) = links_file w \<and>
         reports_file (snd (get_all_report_links E start_url w)) = reports_file w"
  using assms by (simp add: get_all_report_links_def lists_set_def world_simps)

theorem existing_links_file_is_loaded_witness:
  "links_file (fresh_world\<lparr>links_file := Some ''u\<newline>v\<newline>u''\<rparr>) = Some ''u\<newline>v\<newline>u'' \<and>
   lists_set (demo_env (\<lambda>h. Timeout)) (splitlines ''u\<newline>v\<newline>u'') \<and>
   fst (get_all_report_links (demo_env (\<lambda>h. Timeout)) BASE_URL
     (fresh_world\<lparr>links_file := Some ''u\<newline>v\<newline>u''\<rparr>)) = Inr [''v'', ''u''] \<and>
   driver_gets (snd (get_all_report_links (demo_env (\<lambda>h. Timeout)) BASE_URL
     (fresh_world\<lparr>links_file := Some ''u\<newline>v\<newline>u''\<rparr>))) = []"
proof -
  let ?E = "demo_env (\<lambda>h. Timeout)"
  let ?w = "fresh_world\<lparr>links_file := Some ''u\<newline>v\<newline>u''\<rparr>"
  have f: "links_file ?w = Some ''u\<newline>v\<newline>u''"
    by simp
  have l: "lists_set ?E (splitlines ''u\<newline>v\<newline>u'')"
    by (simp add: lists_set_def demo_env_def)
  have s: "splitlines ''u\<newline>v\<newline>u'' = [''u'', ''v'', ''u'']"
    by (simp add: splitlines_def linebreak_def)
  have r: "fst (get_all_report_links ?E BASE_URL ?w) = Inr [''v'', ''u'']"
    by (simp add: get_all_report_links_def s) (simp add: demo_env_def)
  have "driver_gets ?w = []"
    by (simp add: fresh_world_def)
  with f l r existing_links_file_is_loaded [OF f l, of BASE_URL] show ?thesis
    by simp
qed

subsection \<open>A run with nothing left to do\<close>

text \<open>
  C4. When every link of the input is in the \<open>Link\<close> column of the report file, a run
  of \<open>scrape_erowid_reports\<close> visits no link (zero remaining, zero scraped, no page
  fetched) and leaves both files as they were.
\<close>

theorem all_links_known_no_work:
  assumes "set report_links \<subseteq> load_scraped_links E w"
    and "set (list_of_set E report_links) = set report_links"
  shows "fst (scrape_erowid_reports E report_links w) = None \<and>
         driver_gets (snd (scrape_erowid_reports E report_links w)) = driver_gets w \<and>
         reports_file (snd (scrape_erowid_reports E report_links w)) = reports_file w \<and>
         links_file (snd (scrape_erowid_reports E report_links w)) = links_file w \<and>
         console (snd (scrape_erowid_reports E report_links w))
           = console w @ [Remaining 0, Finished_scraping 0]"
proof -
  from assms have "pending E report_links w = []"
    by (auto simp: pending_def filter_empty_conv)
  then show ?thesis
    by (simp add: scrape_erowid_reports_def Let_def on_world_simps world_simps)
qed

theorem all_links_known_no_work_witness:
  "set [link_b, link_a, link_b]
     \<subseteq> load_scraped_links (demo_env (\<lambda>h. Loaded page_report))
         (fresh_world\<lparr>reports_file := Some [row_of ''one'' link_a, row_of ''two'' link_b]\<rparr>) \<and>
   set (list_of_set (demo_env (\<lambda>h. Loaded page_report)) [link_b, link_a, link_b])
     = set [link_b, link_a, link_b] \<and>
   driver_gets (snd (scrape_erowid_reports (demo_env (\<lambda>h. Loaded page_report)) [link_b, link_a, link_b]
         (fresh_world\<lparr>reports_file := Some [row_of ''one'' link_a, row_of ''two'' link_b]\<rparr>))) = [] \<and>
   reports_file (snd (scrape_erowid_reports (demo_env (\<lambda>h. Loaded page_report)) [link_b, link_a, link_b]
         (fresh_world\<lparr>reports_file := Some [row_of ''one'' link_a, row_of ''two'' link_b]\<rparr>)))
     = Some [row_of ''one'' link_a, row_of ''two'' link_b]"
proof -
  let ?E = "demo_env (\<lambda>h. Loaded page_report)"
  let ?w = "fresh_world\<lparr>reports_file := Some [row_of ''one'' link_a, row_of ''two'' link_b]\<rparr>"
  have k: "set [link_b, link_a, link_b] \<subseteq> load_scraped_links ?E ?w"
    by (simp add: load_scraped_links_def demo_env_def row_of_def)
  have l: "set (list_of_set ?E [link_b, link_a, link_b]) = set [link_b, link_a, link_b]"
    by (auto simp: demo_env_def)
  have "driver_gets ?w = []" "reports_file ?w = Some [row_of ''one'' link_a, row_of ''two'' link_b]"
    by (simp_all add: fresh_world_def)
  with k l all_links_known_no_work [OF k l] show ?thesis
    by simp
qed

subsection \<open>One pass through the loop body\<close>

lemma flushes_append: "flushes (es @ fs) = flushes es @ flushes fs"
  by (induction es rule: flushes.induct) simp_all

lemma save_batch_simps:
  "all_data (save_batch E i st) = []"
  "processed_count (save_batch E i st) = processed_count st"
  "scraped_links (save_batch E i st) = scraped_links st"
  "console (wld (save_batch E i st)) = console (wld st) @ [Saved_batch (i + 1)]"
  "driver_gets (wld (save_batch E i st)) = driver_gets (wld st)"
  "driver_quits (wld (save_batch E i st)) = driver_quits (wld st)"
  "links_file (wld (save_batch E i st)) = links_file (wld st)"
  by (simp_all add: save_batch_def Let_def on_world_simps world_simps)

lemma body_known: "href \<in> scraped_links st \<Longrightarrow> body E n i href st = Next st"
  by (simp add: body_def)

lemma body_invalid:
  "href \<notin> scraped_links st \<Longrightarrow> \<not> startswith href erowid \<Longrightarrow>
   body E n i href st = Next (on_world (print (Skipping_invalid href)) st)"
  by (simp add: body_def)

lemma body_timeout:
  "href \<notin> scraped_links st \<Longrightarrow> startswith href erowid \<Longrightarrow> driver_load E href = Timeout \<Longrightarrow>
   body E n i href st
     = Next (on_world (print (Timeout_skipping href)) (on_world (driver_get href) st))"
  by (simp add: body_def)

lemma body_banned:
  "href \<notin> scraped_links st \<Longrightarrow> startswith href erowid \<Longrightarrow> driver_load E href = Loaded pg \<Longrightarrow>
   contains ban_signature (page_source pg) \<Longrightarrow>
   body E n i href st =
     (case h2 pg of
        None \<Rightarrow> Raise AttributeError (on_world (driver_get href) st)
      | Some t \<Rightarrow>
          Break (on_world driver_quit
            (on_world (print (Process_stopped (processed_count st)))
              (on_world (print (IP_banned (strip (last (split t '': ''))))) (on_world (driver_get href) st)))))"
  by (simp add: body_def Let_def on_world_simps split: option.splits)

lemma body_redirected:
  "href \<notin> scraped_links st \<Longrightarrow> startswith href erowid \<Longrightarrow> driver_load E href = Loaded pg \<Longrightarrow>
   \<not> contains ban_signature (page_source pg) \<Longrightarrow>
   contains ''reset.me'' (current_url pg) \<or> contains ''wordpress.com'' (current_url pg) \<Longrightarrow>
   body E n i href st = Next (on_world (print (Redirected (current_url pg))) (on_world (driver_get href) st))"
  by (simp add: body_def Let_def)

lemma body_extracted:
  "href \<notin> scraped_links st \<Longrightarrow> extractable E href \<Longrightarrow> driver_load E href = Loaded pg \<Longrightarrow>
   body E n i href st =
     Next (if (i + 1) mod BATCH_SIZE = 0 \<or> i + 1 = n then save_batch E i (extracted pg href st)
           else extracted pg href st)"
  by (simp add: body_def Let_def extractable_def extracted_def on_world_simps)

lemma extracted_simps:
  "all_data (extracted pg href st) = all_data st @ [extract_fields pg href]"
  "processed_count (extracted pg href st) = processed_count st + 1"
  "scraped_links (extracted pg href st) = insert href (scraped_links st)"
  "wld (extracted pg href st) = driver_get href (wld st)"
  by (simp_all add: extracted_def on_world_simps)

lemma body_cases [consumes 0, case_names known invalid timeout crash banned redirected extracted]:
  obtains
    "href \<in> scraped_links st" "body E n i href st = Next st"
  | "href \<notin> scraped_links st" "\<not> startswith href erowid"
    "body E n i href st = Next (on_world (print (Skipping_invalid href)) st)"
  | "href \<notin> scraped_links st" "startswith href erowid" "driver_load E href = Timeout"
    "body E n i href st
       = Next (on_world (print (Timeout_skipping href)) (on_world (driver_get href) st))"
  | pg where "href \<notin> scraped_links st" "startswith href erowid" "driver_load E href = Loaded pg"
    "contains ban_signature (page_source pg)" "h2 pg = None"
    "body E n i href st = Raise AttributeError (on_world (driver_get href) st)"
  | pg t where "href \<notin> scraped_links st" "startswith href erowid" "driver_load E href = Loaded pg"
    "contains ban_signature (page_source pg)" "h2 pg = Some t"
    "body E n i href st =
       Break (on_world driver_quit
         (on_world (print (Process_stopped (processed_count st)))
           (on_world (print (IP_banned (strip (last (split t '': '')))))
             (on_world (driver_get href) st))))"
  | pg where "href \<notin> scraped_links st" "startswith href erowid" "driver_load E href = Loaded pg"
    "body E n i href st
       = Next (on_world (print (Redirected (current_url pg))) (on_world (driver_get href) st))"
  | pg where "href \<notin> scraped_links st" "extractable E href" "driver_load E href = Loaded pg"
    "body E n i href st =
       Next (if (i + 1) mod BATCH_SIZE = 0 \<or> i + 1 = n then save_batch E i (extracted pg href st)
             else extracted pg href st)"
proof (cases "href \<in> scraped_links st")
  case True
  then show ?thesis using that(1) by (simp add: body_known)
next
  case fresh: False
  show ?thesis
  proof (cases "startswith href erowid")
    case False
    with fresh show ?thesis using that(2) by (simp add: body_invalid)
  next
    case valid: True
    show ?thesis
    proof (cases "driver_load E href")
      case Timeout
      with fresh valid show ?thesis using that(3) by (simp add: body_timeout)
    next
      case (Loaded pg)
      show ?thesis
      proof (cases "contains ban_signature (page_source pg)")
        case ban: True
        show ?thesis
        proof (cases "h2 pg")
          case None
          with fresh valid Loaded ban show ?thesis
            using that(4) [of pg] by (simp add: body_banned)
        next
          case (Some t)
          with fresh valid Loaded ban show ?thesis
            using that(5) [of pg t] by (simp add: body_banned)
        qed
      next
        case noban: False
        show ?thesis
        proof (cases "contains ''reset.me'' (current_url pg) \<or> contains ''wordpress.com'' (current_url pg)")
          case True
          with fresh valid Loaded noban show ?thesis
            using that(6) [of pg] by (simp add: body_redirected)
        next
          case False
          with valid Loaded noban have "extractable E href"
            by (simp add: extractable_def)
          with fresh Loaded show ?thesis
            using that(7) [of pg] by (simp add: body_extracted)
        qed
      qed
    qed
  qed
qed

subsection \<open>Extraction of the fields\<close>

text \<open>
  C7. For every page, a field whose selector finds nothing gets its placeholder text:
  a missing author element gives \<open>Author = "Unknown"\<close>. The record is complete, no
  field is NaN, and its link is the address that was fetched. Whatever is missing, the
  pass through the loop body for a page without ban signature and off-site address
  ends normally, with the link counted and marked as scraped.
\<close>

theorem missing_fields_get_placeholders:
  "(div_title pg = None \<longrightarrow> Title (extract_fields pg href) = Some ''Unknown Title'') \<and>
   (div_substance pg = None \<longrightarrow> Substance (extract_fields pg href) = Some ''Unknown Substance'') \<and>
   (div_author pg = None \<longrightarrow> Author (extract_fields pg href) = Some ''Unknown'') \<and>
   (td_bodyweight pg = None \<longrightarrow> Bodyweight (extract_fields pg href) = Some ''Unknown'') \<and>
   (dosechart_rows pg = [] \<longrightarrow> Dose_Chart (extract_fields pg href) = Some ''No Dose Chart Available'') \<and>
   (report_text_strings pg = None \<longrightarrow> Report_Text (extract_fields pg href) = Some ''No Text Available'') \<and>
   Link (extract_fields pg href) = Some href \<and>
   None \<notin> {Title (extract_fields pg href), Substance (extract_fields pg href),
     Author (extract_fields pg href), Bodyweight (extract_fields pg href),
     Dose_Chart (extract_fields pg href), Report_Text (extract_fields pg href)} \<and>
   (href \<notin> scraped_links st \<and> extractable E href \<and> driver_load E href = Loaded pg \<longrightarrow>
      (\<exists>st'. body E n i href st = Next st' \<and>
         processed_count st' = processed_count st + 1 \<and> href \<in> scraped_links st'))"
proof -
  have "href \<notin> scraped_links st \<and> extractable E href \<and> driver_load E href = Loaded pg \<longrightarrow>
      (\<exists>st'. body E n i href st = Next st' \<and>
         processed_count st' = processed_count st + 1 \<and> href \<in> scraped_links st')"
    by (simp add: body_extracted save_batch_simps extracted_simps)
  then show ?thesis
    by (simp add: extract_fields_def dose_chart_entries_def)
qed

theorem missing_fields_get_placeholders_witness:
  "div_author page_report = None \<and>
   Author (extract_fields page_report link_a) = Some ''Unknown'' \<and>
   td_bodyweight page_report = None \<and>
   Bodyweight (extract_fields page_report link_a) = Some ''Unknown'' \<and>
   dosechart_rows page_report = [] \<and>
   Dose_Chart (extract_fields page_report link_a) = Some ''No Dose Chart Available'' \<and>
   Title (extract_fields page_report link_a) = Some ''First Time'' \<and>
   link_a \<notin> scraped_links (loop_entry (demo_env web_a_only) [link_a] fresh_world) \<and>
   extractable (demo_env web_a_only) link_a \<and>
   driver_load (demo_env web_a_only) link_a = Loaded page_report \<and>
   (\<exists>st'. body (demo_env web_a_only) 2 0 link_a
            (loop_entry (demo_env web_a_only) [link_a] fresh_world) = Next st' \<and>
          processed_count st' = 1 \<and> link_a \<in> scraped_links st')"
proof -
  let ?E = "demo_env web_a_only"
  let ?s0 = "loop_entry ?E [link_a] fresh_world"
  have a: "div_author page_report = None" "td_bodyweight page_report = None"
    "dosechart_rows page_report = []"
    by (simp_all add: page_report_def)
  have t: "Title (extract_fields page_report link_a) = Some ''First Time''"
    by (simp add: extract_fields_def page_report_def strip_def isspace_def)
  have f: "link_a \<notin> scraped_links ?s0"
    by (simp add: loop_entry_def on_world_simps load_scraped_links_def fresh_world_def)
  have l: "driver_load ?E link_a = Loaded page_report"
    by (simp add: demo_env_def web_a_only_def)
  have v: "startswith link_a erowid"
    by (simp add: startswith_def link_a_def erowid_def)
  have e: "extractable ?E link_a"
    by (simp add: extractable_def v l) (simp add: page_report_def ban_signature_def startswith_def)
  have c: "processed_count ?s0 = 0"
    by (simp add: loop_entry_def on_world_simps)
  note m = missing_fields_get_placeholders [where pg = page_report and href = link_a
      and st = ?s0 and E = ?E and n = 2 and i = 0]
  from m a have p: "Author (extract_fields page_report link_a) = Some ''Unknown''"
    "Bodyweight (extract_fields page_report link_a) = Some ''Unknown''"
    "Dose_Chart (extract_fields page_report link_a) = Some ''No Dose Chart Available''"
    by blast+
  from m f e l c have "\<exists>st'. body ?E 2 0 link_a ?s0 = Next st' \<and>
      processed_count st' = 1 \<and> link_a \<in> scraped_links st'"
    by simp
  with a t p f e l show ?thesis
    by blast
qed

subsection \<open>Batch flushes\<close>


lemma scrape_erowid_reports_loop:
  "scrape_erowid_reports E report_links w =
     (case scrape_loop E (length (pending E report_links w)) 0 (pending E report_links w)
             (loop_entry E report_links w) of
        (Crashed e, st) \<Rightarrow> (Some e, wld st)
      | (_, st) \<Rightarrow> (None, driver_quit (print (Finished_scraping (processed_count st)) (wld st))))"
  by (simp add: scrape_erowid_reports_def loop_entry_def Let_def)

lemma loop_entry_simps:
  "all_data (loop_entry E ls w) = []"
  "processed_count (loop_entry E ls w) = 0"
  "scraped_links (loop_entry E ls w) = load_scraped_links E w"
  "wld (loop_entry E ls w) = print (Remaining (length (pending E ls w))) w"
  by (simp_all add: loop_entry_def on_world_simps)

lemma pending_fresh: "set (pending E ls w) \<inter> load_scraped_links E w = {}"
  by (auto simp: pending_def)

lemma distinct_pending: "distinct (list_of_set E ls) \<Longrightarrow> distinct (pending E ls w)"
  by (simp add: pending_def)





lemma pending_fresh_world:
  "pending (demo_env web) ls fresh_world = remdups ls"
  by (simp add: pending_def load_scraped_links_def fresh_world_def demo_env_def)


subsection \<open>Links whose fetch times out\<close>

lemma set_dropna: "set (dropna cs) = {s. Some s \<in> set cs}"
  by (induction cs rule: dropna.induct) auto

lemma load_scraped_links_table:
  "load_scraped_links E w = {s. Some s \<in> Link ` set (report_table E w)}"
  by (simp add: load_scraped_links_def report_table_def set_dropna split: option.splits)

lemma report_table_save_batch:
  "roundtrip E \<Longrightarrow>
   report_table E (wld (save_batch E i st)) = drop_duplicates (report_table E (wld st) @ all_data st)"
  by (simp add: save_batch_def Let_def on_world_simps report_table_simps)
    (simp add: report_table_def roundtrip_def split: option.splits)

lemma Link_table_save_batch:
  "roundtrip E \<Longrightarrow>
   Link ` set (report_table E (wld (save_batch E i st)))
     = Link ` set (report_table E (wld st)) \<union> Link ` set (all_data st)"
  by (simp add: report_table_save_batch Link_drop_duplicates image_Un)

lemma Link_extract_fields: "Link (extract_fields pg href) = Some href"
  by (simp add: extract_fields_def)

lemma absent_on_world:
  "report_table E (f (wld st)) = report_table E (wld st) \<Longrightarrow>
   absent E h (on_world f st) = absent E h st"
  by (simp add: absent_def on_world_simps)

lemma absent_body:
  assumes "roundtrip E" and "driver_load E href = Timeout" and "absent E href st"
  shows "absent E href (ctl_state (body E n i l st))"
proof (cases rule: body_cases [of l st E n i])
  case known
  with assms(3) show ?thesis by simp
next
  case invalid
  with assms(3) show ?thesis by (simp add: absent_on_world report_table_simps)
next
  case timeout
  with assms(3) show ?thesis by (simp add: absent_on_world report_table_simps)
next
  case (crash pg)
  with assms(3) show ?thesis by (simp add: absent_on_world report_table_simps)
next
  case (banned pg t)
  with assms(3) show ?thesis by (simp add: absent_on_world report_table_simps)
next
  case (redirected pg)
  with assms(3) show ?thesis by (simp add: absent_on_world report_table_simps)
next
  case (extracted pg)
  with assms(2) have ne: "l \<noteq> href"
    by auto
  with assms(3) have a: "absent E href (extracted pg l st)"
    by (simp add: absent_def extracted_simps Link_extract_fields report_table_simps)
  then have "absent E href (save_batch E i (extracted pg l st))"
    using assms(1) by (auto simp: absent_def Link_table_save_batch save_batch_simps)
  with a extracted show ?thesis
    by simp
qed

lemma absent_loop:
  assumes "roundtrip E" and "driver_load E href = Timeout"
  shows "absent E href st \<Longrightarrow> absent E href (snd (scrape_loop E n i ls st))"
proof (induction ls arbitrary: i st)
  case Nil
  then show ?case by simp
next
  case (Cons l ls)
  from absent_body [OF assms Cons.prems, of n i l] Cons.IH show ?case
    by (cases "body E n i l st") simp_all
qed

lemma report_table_scrape:
  "report_table E (snd (scrape_erowid_reports E ls w))
     = report_table E (wld (snd (scrape_loop E (length (pending E ls w)) 0 (pending E ls w)
         (loop_entry E ls w))))"
  by (cases "scrape_loop E (length (pending E ls w)) 0 (pending E ls w) (loop_entry E ls w)")
    (simp add: scrape_erowid_reports_loop report_table_simps split: outcome.splits)

text \<open>
  C6. Let the fetch of \<open>href\<close> time out, \<open>href\<close> not being in the report file. After a
  run of \<open>scrape_erowid_reports\<close>, whatever the other links do, no row of the report
  file has the link \<open>href\<close>, so the next run does not count it as scraped and, if it
  is among its input, has it among the links it runs over. In the loop, the link is
  fetched, the timeout is printed, and the loop goes on with the next link.
\<close>

theorem timed_out_link_stays_pending:
  assumes "roundtrip E"
    and "driver_load E href = Timeout"
    and "href \<notin> load_scraped_links E w"
  shows "Some href \<notin> Link ` set (report_table E (snd (scrape_erowid_reports E report_links w))) \<and>
         href \<notin> load_scraped_links E (snd (scrape_erowid_reports E report_links w)) \<and>
         (href \<in> set (list_of_set E report_links) \<longrightarrow>
            href \<in> set (pending E report_links (snd (scrape_erowid_reports E report_links w)))) \<and>
         (href \<notin> scraped_links st \<and> startswith href erowid \<longrightarrow>
            scrape_loop E n i (href # rest) st
              = scrape_loop E n (Suc i) rest
                  (on_world (print (Timeout_skipping href)) (on_world (driver_get href) st)))"
proof -
  from assms(3) have "absent E href (loop_entry E report_links w)"
    by (simp add: absent_def loop_entry_simps report_table_simps load_scraped_links_table)
  from absent_loop [OF assms(1,2) this]
  have t: "Some href \<notin> Link ` set (report_table E (snd (scrape_erowid_reports E report_links w)))"
    by (simp add: report_table_scrape absent_def)
  then have s: "href \<notin> load_scraped_links E (snd (scrape_erowid_reports E report_links w))"
    by (simp add: load_scraped_links_table)
  then have p: "href \<in> set (list_of_set E report_links) \<longrightarrow>
      href \<in> set (pending E report_links (snd (scrape_erowid_reports E report_links w)))"
    by (simp add: pending_def)
  have l: "href \<notin> scraped_links st \<and> startswith href erowid \<longrightarrow>
      scrape_loop E n i (href # rest) st
        = scrape_loop E n (Suc i) rest
            (on_world (print (Timeout_skipping href)) (on_world (driver_get href) st))"
    using assms(2) by (simp add: body_timeout)
  from t s p l show ?thesis
    by blast
qed

lemma links_differ: "link_a \<noteq> link_b" "link_a \<noteq> link_c" "link_b \<noteq> link_c"
  by (simp_all add: link_a_def link_b_def link_c_def)

lemma links_valid: "startswith link_a erowid" "startswith link_b erowid" "startswith link_c erowid"
  by (simp_all add: startswith_def link_a_def link_b_def link_c_def erowid_def)

lemma page_report_plain:
  "\<not> contains ban_signature (page_source page_report)"
  "\<not> contains ''reset.me'' (current_url page_report)"
  "\<not> contains ''wordpress.com'' (current_url page_report)"
  by (simp_all add: page_report_def ban_signature_def startswith_def)

lemma scraped_links_fresh_world: "load_scraped_links (demo_env web) fresh_world = {}"
  by (simp add: load_scraped_links_def fresh_world_def)

lemma run_b_then_a:
  "scrape_erowid_reports (demo_env web_a_only) [link_b, link_a] fresh_world
     = (None, driver_quit (print (Finished_scraping 1)
         (wld (save_batch (demo_env web_a_only) 1
           (extracted page_report link_a
             (on_world (print (Timeout_skipping link_b)) (on_world (driver_get link_b)
               (loop_entry (demo_env web_a_only) [link_b, link_a] fresh_world))))))))"
proof -
  let ?E = "demo_env web_a_only"
  let ?s0 = "loop_entry ?E [link_b, link_a] fresh_world"
  let ?s1 = "on_world (print (Timeout_skipping link_b)) (on_world (driver_get link_b) ?s0)"
  have p: "pending ?E [link_b, link_a] fresh_world = [link_b, link_a]"
    using links_differ by (simp add: pending_fresh_world)
  have la: "driver_load ?E link_a = Loaded page_report" "driver_load ?E link_b = Timeout"
    using links_differ by (simp_all add: demo_env_def web_a_only_def)
  have ea: "extractable ?E link_a"
    by (simp add: extractable_def links_valid la page_report_plain)
  have s0: "scraped_links ?s0 = {}"
    by (simp add: loop_entry_simps scraped_links_fresh_world)
  have b1: "body ?E (Suc (Suc 0)) 0 link_b ?s0 = Next ?s1"
    by (simp add: body_timeout [OF _ links_valid(2) la(2)] s0)
  have b2: "body ?E (Suc (Suc 0)) (Suc 0) link_a ?s1
      = Next (save_batch ?E 1 (extracted page_report link_a ?s1))"
    by (simp add: body_extracted [OF _ ea la(1)] on_world_simps s0)
  show ?thesis
    by (simp add: scrape_erowid_reports_loop p b1 b2 save_batch_simps extracted_simps on_world_simps
        loop_entry_simps)
qed

theorem timed_out_link_stays_pending_witness:
  "roundtrip (demo_env web_a_only) \<and>
   driver_load (demo_env web_a_only) link_b = Timeout \<and>
   link_b \<notin> load_scraped_links (demo_env web_a_only) fresh_world \<and>
   map Link (report_table (demo_env web_a_only)
     (snd (scrape_erowid_reports (demo_env web_a_only) [link_b, link_a] fresh_world))) = [Some link_a] \<and>
   Some link_b \<notin> Link ` set (report_table (demo_env web_a_only)
     (snd (scrape_erowid_reports (demo_env web_a_only) [link_b, link_a] fresh_world))) \<and>
   link_b \<in> set (pending (demo_env web_a_only) [link_b, link_a]
     (snd (scrape_erowid_reports (demo_env web_a_only) [link_b, link_a] fresh_world)))"
proof -
  let ?E = "demo_env web_a_only"
  let ?w = "snd (scrape_erowid_reports ?E [link_b, link_a] fresh_world)"
  have r: "roundtrip ?E"
    by (rule roundtrip_demo_env)
  have t: "driver_load ?E link_b = Timeout"
    using links_differ by (simp add: demo_env_def web_a_only_def)
  have f: "link_b \<notin> load_scraped_links ?E fresh_world"
    by (simp add: scraped_links_fresh_world)
  have m: "map Link (report_table ?E ?w) = [Some link_a]"
    by (simp add: run_b_then_a report_table_simps report_table_save_batch [OF r]
        extracted_simps on_world_simps loop_entry_simps)
      (simp add: report_table_def fresh_world_def print_def driver_get_def drop_duplicates_def
        Link_extract_fields)
  have l: "link_b \<in> set (list_of_set ?E [link_b, link_a])"
    by (simp add: demo_env_def)
  from r t f m l timed_out_link_stays_pending [OF r t f, of "[link_b, link_a]"] show ?thesis
    by blast
qed

subsection \<open>The order of the visits\<close>

lemma body_scraped:
  "scraped_links (ctl_state (body E n i href st)) \<subseteq> insert href (scraped_links st)"
  by (cases rule: body_cases [of href st E n i])
    (auto simp: on_world_simps save_batch_simps extracted_simps)

lemma body_gets:
  "href \<notin> scraped_links st \<Longrightarrow>
   driver_gets (wld (ctl_state (body E n i href st)))
     = driver_gets (wld st) @ (if startswith href erowid then [href] else [])"
  by (cases rule: body_cases [of href st E n i])
    (auto simp: on_world_simps save_batch_simps extracted_simps world_simps extractable_def)

lemma body_stops:
  "body E n i href st \<noteq> Next (ctl_state (body E n i href st)) \<Longrightarrow>
   href \<notin> scraped_links st \<and> startswith href erowid \<and> blocked E href"
  by (cases rule: body_cases [of href st E n i]) (auto simp: blocked_def)

lemma loop_visits:
  "distinct ls \<Longrightarrow> set ls \<inter> scraped_links st = {} \<Longrightarrow>
   \<exists>vs. driver_gets (wld (snd (scrape_loop E n i ls st))) = driver_gets (wld st) @ vs \<and>
        prefix vs (filter (\<lambda>l. startswith l erowid) ls) \<and>
        ((\<forall>l\<in>set ls. \<not> blocked E l) \<longrightarrow> vs = filter (\<lambda>l. startswith l erowid) ls)"
proof (induction ls arbitrary: i st)
  case Nil
  show ?case by simp
next
  case (Cons href rest)
  let ?b = "body E n i href st"
  let ?v = "if startswith href erowid then [href] else []"
  from Cons.prems have fresh: "href \<notin> scraped_links st"
    by auto
  have g: "driver_gets (wld (ctl_state ?b)) = driver_gets (wld st) @ ?v"
    by (rule body_gets [OF fresh])
  show ?case
  proof (cases "?b = Next (ctl_state ?b)")
    case True
    from Cons.prems body_scraped [of E n i href st]
    have "distinct rest" "set rest \<inter> scraped_links (ctl_state ?b) = {}"
      by auto
    from Cons.IH [OF this, of "Suc i"] obtain vs where
      vs: "driver_gets (wld (snd (scrape_loop E n (Suc i) rest (ctl_state ?b))))
             = driver_gets (wld (ctl_state ?b)) @ vs"
        "prefix vs (filter (\<lambda>l. startswith l erowid) rest)"
        "(\<forall>l\<in>set rest. \<not> blocked E l) \<longrightarrow> vs = filter (\<lambda>l. startswith l erowid) rest"
      by blast
    have l: "scrape_loop E n i (href # rest) st = scrape_loop E n (Suc i) rest (ctl_state ?b)"
      by (subst scrape_loop.simps, subst True) simp
    have "driver_gets (wld (snd (scrape_loop E n i (href # rest) st)))
        = driver_gets (wld st) @ (?v @ vs)"
      unfolding l by (simp add: vs(1) g)
    moreover have "prefix (?v @ vs) (filter (\<lambda>l. startswith l erowid) (href # rest))"
      using vs(2) by simp
    moreover have "(\<forall>l\<in>set (href # rest). \<not> blocked E l) \<longrightarrow>
        ?v @ vs = filter (\<lambda>l. startswith l erowid) (href # rest)"
      using vs(3) by simp
    ultimately show ?thesis
      by blast
  next
    case False
    from body_stops [OF False] have s: "startswith href erowid" "blocked E href"
      by simp_all
    from False have "snd (scrape_loop E n i (href # rest) st) = ctl_state ?b"
      by (cases ?b) simp_all
    with g s have "driver_gets (wld (snd (scrape_loop E n i (href # rest) st)))
        = driver_gets (wld st) @ [href]"
      by simp
    moreover from s have "prefix [href] (filter (\<lambda>l. startswith l erowid) (href # rest))"
      by simp
    moreover from s have "\<not> (\<forall>l\<in>set (href # rest). \<not> blocked E l)"
      by simp
    ultimately show ?thesis
      by blast
  qed
qed

lemma driver_gets_scrape:
  "driver_gets (snd (scrape_erowid_reports E ls w))
     = driver_gets (wld (snd (scrape_loop E (length (pending E ls w)) 0 (pending E ls w)
         (loop_entry E ls w))))"
  by (cases "scrape_loop E (length (pending E ls w)) 0 (pending E ls w) (loop_entry E ls w)")
    (simp add: scrape_erowid_reports_loop world_simps split: outcome.splits)

lemma driver_gets_scrape_erowid_reports:
  assumes "distinct (list_of_set E report_links)"
  shows "\<exists>vs. driver_gets (snd (scrape_erowid_reports E report_links w)) = driver_gets w @ vs \<and>
           prefix vs (filter (\<lambda>l. startswith l erowid)
             (filter (\<lambda>l. l \<notin> load_scraped_links E w) (list_of_set E report_links))) \<and>
           ((\<forall>l\<in>set (list_of_set E report_links). \<not> blocked E l) \<longrightarrow>
              vs = filter (\<lambda>l. startswith l erowid)
                (filter (\<lambda>l. l \<notin> load_scraped_links E w) (list_of_set E report_links)))"
proof -
  let ?ps = "pending E report_links w"
  have d: "distinct ?ps"
    by (rule distinct_pending [OF assms])
  have f: "set ?ps \<inter> scraped_links (loop_entry E report_links w) = {}"
    by (simp add: loop_entry_simps pending_fresh)
  from loop_visits [OF d f, of E "length ?ps" 0] obtain vs where
    vs: "driver_gets (snd (scrape_erowid_reports E report_links w)) = driver_gets w @ vs"
      "prefix vs (filter (\<lambda>l. startswith l erowid) ?ps)"
      "(\<forall>l\<in>set ?ps. \<not> blocked E l) \<longrightarrow> vs = filter (\<lambda>l. startswith l erowid) ?ps"
    by (auto simp: driver_gets_scrape loop_entry_simps world_simps)
  have "set ?ps \<subseteq> set (list_of_set E report_links)"
    by (auto simp: pending_def)
  with vs show ?thesis
    unfolding pending_def by blast
qed

text \<open>
  C9, as amended. The pages fetched by a run are, in order, an initial part of
  \<open>list(set(report_links))\<close> without the links already in the report file and without
  the links that lack the site's prefix; all of them when no page carries the ban
  signature. The order is the one in which the set is listed, which the input's order
  does not determine.
\<close>

theorem visits_follow_set_listing:
  assumes "distinct (list_of_set E report_links)"
  shows "\<exists>vs. driver_gets (snd (scrape_erowid_reports E report_links w)) = driver_gets w @ vs \<and>
           prefix vs (filter (\<lambda>l. startswith l erowid)
             (filter (\<lambda>l. l \<notin> load_scraped_links E w) (list_of_set E report_links))) \<and>
           ((\<forall>l\<in>set (list_of_set E report_links). \<not> blocked E l) \<longrightarrow>
              vs = filter (\<lambda>l. startswith l erowid)
                (filter (\<lambda>l. l \<notin> load_scraped_links E w) (list_of_set E report_links)))"
  using assms by (rule driver_gets_scrape_erowid_reports)

lemma not_blocked_a_only: "\<not> blocked (demo_env web_a_only) l" "\<not> blocked (demo_env_rev web_a_only) l"
  by (simp_all add: blocked_def demo_env_def demo_env_rev_def web_a_only_def page_report_plain)

theorem visits_follow_set_listing_witness:
  "distinct (list_of_set (demo_env web_a_only) [link_a, link_b, link_a]) \<and>
   list_of_set (demo_env web_a_only) [link_a, link_b, link_a] = [link_b, link_a] \<and>
   driver_gets (snd (scrape_erowid_reports (demo_env web_a_only) [link_a, link_b, link_a] fresh_world))
     = [link_b, link_a]"
proof -
  let ?E = "demo_env web_a_only"
  let ?ls = "[link_a, link_b, link_a]"
  have l: "list_of_set ?E ?ls = [link_b, link_a]"
    using links_differ by (simp add: demo_env_def)
  have d: "distinct (list_of_set ?E ?ls)"
    using links_differ by (simp add: l)
  have f: "filter (\<lambda>l. startswith l erowid)
      (filter (\<lambda>l. l \<notin> load_scraped_links ?E fresh_world) (list_of_set ?E ?ls)) = [link_b, link_a]"
    by (simp add: l scraped_links_fresh_world links_valid)
  have g: "driver_gets fresh_world = []"
    by (simp add: fresh_world_def)
  from visits_follow_set_listing [OF d, of fresh_world] obtain vs where
    "driver_gets (snd (scrape_erowid_reports ?E ?ls fresh_world)) = driver_gets fresh_world @ vs"
    "(\<forall>l\<in>set (list_of_set ?E ?ls). \<not> blocked ?E l) \<longrightarrow> vs = [link_b, link_a]"
    unfolding f by blast
  with g have "driver_gets (snd (scrape_erowid_reports ?E ?ls fresh_world)) = [link_b, link_a]"
    by (simp add: not_blocked_a_only)
  with d l show ?thesis
    by blast
qed

text \<open>
  C9 as stated fails: the input \<open>[link_a, link_b]\<close>, its set listed as
  \<open>[link_b, link_a]\<close>, is visited in that order, not in the input's.
\<close>

theorem visits_not_in_input_order:
  "lists_set (demo_env_rev web_a_only) [link_a, link_b] \<and>
   driver_gets (snd (scrape_erowid_reports (demo_env_rev web_a_only) [link_a, link_b] fresh_world))
     = [link_b, link_a] \<and>
   [link_b, link_a] \<noteq> [link_a, link_b]"
proof -
  let ?E = "demo_env_rev web_a_only"
  let ?ls = "[link_a, link_b]"
  have l: "list_of_set ?E ?ls = [link_b, link_a]"
    using links_differ by (simp add: demo_env_rev_def demo_env_def)
  have s: "lists_set ?E ?ls"
    using links_differ by (auto simp: lists_set_def l)
  then have d: "distinct (list_of_set ?E ?ls)"
    by (simp add: lists_set_def)
  have e: "load_scraped_links ?E fresh_world = {}"
    by (simp add: load_scraped_links_def fresh_world_def)
  have f: "filter (\<lambda>l. startswith l erowid)
      (filter (\<lambda>l. l \<notin> load_scraped_links ?E fresh_world) (list_of_set ?E ?ls)) = [link_b, link_a]"
    by (simp add: l e links_valid)
  have g: "driver_gets fresh_world = []"
    by (simp add: fresh_world_def)
  from driver_gets_scrape_erowid_reports [OF d, of fresh_world] obtain vs where
    "driver_gets (snd (scrape_erowid_reports ?E ?ls fresh_world)) = driver_gets fresh_world @ vs"
    "(\<forall>l\<in>set (list_of_set ?E ?ls). \<not> blocked ?E l) \<longrightarrow> vs = [link_b, link_a]"
    unfolding f by blast
  with g have "driver_gets (snd (scrape_erowid_reports ?E ?ls fresh_world)) = [link_b, link_a]"
    by (simp add: not_blocked_a_only)
  with s links_differ show ?thesis
    by simp
qed

subsection \<open>The ban page\<close>

lemma loop_append:
  "scrape_loop E n i (xs @ ys) st =
     (case scrape_loop E n i xs st of
        (Completed, st') \<Rightarrow> scrape_loop E n (i + length xs) ys st'
      | r \<Rightarrow> r)"
proof (induction xs arbitrary: i st)
  case Nil
  show ?case by simp
next
  case (Cons x xs)
  show ?case
    by (cases "body E n i x st") (simp_all add: Cons.IH split: prod.splits outcome.splits)
qed

lemma loop_scraped:
  "scraped_links (snd (scrape_loop E n i ls st)) \<subseteq> scraped_links st \<union> set ls"
proof (induction ls arbitrary: i st)
  case Nil
  show ?case by simp
next
  case (Cons l ls)
  from body_scraped [of E n i l st] Cons.IH [of "Suc i" "ctl_state (body E n i l st)"]
  show ?case
    by (cases "body E n i l st") auto
qed

lemma buffer_fresh_on_world:
  "report_table E (f (wld st)) = report_table E (wld st) \<Longrightarrow>
   buffer_fresh E (on_world f st) = buffer_fresh E st"
  by (simp add: buffer_fresh_def on_world_simps)

lemma buffer_fresh_extracted:
  assumes "buffer_fresh E st" and "l \<notin> scraped_links st"
  shows "buffer_fresh E (extracted pg l st)"
proof -
  from assms have "Some l \<notin> Link ` set (report_table E (wld st))"
    by (auto simp: buffer_fresh_def)
  with assms(1) show ?thesis
    by (auto simp: buffer_fresh_def extracted_simps Link_extract_fields report_table_simps)
qed

lemma buffer_fresh_save_batch:
  "roundtrip E \<Longrightarrow> buffer_fresh E st \<Longrightarrow> buffer_fresh E (save_batch E i st)"
  by (auto simp: buffer_fresh_def Link_table_save_batch save_batch_simps)

lemma buffer_fresh_body:
  assumes "roundtrip E" and "buffer_fresh E st"
  shows "buffer_fresh E (ctl_state (body E n i l st))"
proof (cases rule: body_cases [of l st E n i])
  case (extracted pg)
  from assms(2) extracted(1) have "buffer_fresh E (extracted pg l st)"
    by (rule buffer_fresh_extracted)
  with assms(1) extracted show ?thesis
    by (simp add: buffer_fresh_save_batch)
qed (simp_all add: assms(2) buffer_fresh_on_world report_table_simps)

lemma buffer_fresh_loop:
  assumes "roundtrip E"
  shows "buffer_fresh E st \<Longrightarrow> buffer_fresh E (snd (scrape_loop E n i ls st))"
proof (induction ls arbitrary: i st)
  case Nil
  then show ?case by simp
next
  case (Cons l ls)
  from buffer_fresh_body [OF assms Cons.prems, of n i l] Cons.IH show ?case
    by (cases "body E n i l st") simp_all
qed

lemma Link_known: "c \<in> insert None (Some ` {s. Some s \<in> Link ` set df}) \<or> c \<notin> Link ` set df"
  by (cases c) auto

lemma buffer_fresh_entry: "buffer_fresh E (loop_entry E ls w)"
  using Link_known [of _ "report_table E w"]
  by (auto simp: buffer_fresh_def loop_entry_simps report_table_simps load_scraped_links_table)

lemma report_table_cong:
  "reports_file v = reports_file w \<Longrightarrow> report_table E v = report_table E w"
  by (simp add: report_table_def)

lemma Link_table_cleanup:
  "roundtrip E \<Longrightarrow>
   Link ` set (report_table E (remove_duplicates_from_csv E w)) = Link ` set (report_table E w)"
  by (cases "reports_file w")
    (simp_all add: report_table_def reports_file_cleanup roundtrip_def Link_drop_duplicates)

lemma loop_banned:
  assumes "href \<notin> scraped_links st" and "startswith href erowid"
    and "driver_load E href = Loaded pg" and "contains ban_signature (page_source pg)"
  shows "fst (scrape_loop E n i (href # rest) st) \<noteq> Completed \<and>
         reports_file (wld (snd (scrape_loop E n i (href # rest) st))) = reports_file (wld st) \<and>
         flushes (console (wld (snd (scrape_loop E n i (href # rest) st))))
           = flushes (console (wld st)) \<and>
         all_data (snd (scrape_loop E n i (href # rest) st)) = all_data st \<and>
         driver_gets (wld (snd (scrape_loop E n i (href # rest) st)))
           = driver_gets (wld st) @ [href]"
  by (cases "h2 pg")
    (simp_all add: body_banned [OF assms] on_world_simps world_simps flushes_append)

lemma scrape_after_loop:
  assumes "scrape_loop E (length (pending E ls w)) 0 (pending E ls w) (loop_entry E ls w) = (r, st)"
  shows "reports_file (snd (scrape_erowid_reports E ls w)) = reports_file (wld st) \<and>
         flushes (console (snd (scrape_erowid_reports E ls w))) = flushes (console (wld st))"
  by (cases r) (simp_all add: scrape_erowid_reports_loop assms world_simps flushes_append)

text \<open>
  C10. Let the loop have passed the links \<open>pre\<close> and be in state \<open>st\<close> when it comes to
  a link whose page carries the ban signature. The run writes nothing more: the report
  file it leaves is the one of \<open>st\<close>, it prints no further flush, and no record of the
  buffer of \<open>st\<close> (the records extracted since the last flush) has its link in the
  report file, neither after the run nor after the cleanup pass that follows it. This
  holds whether the page has an \<open>h2\<close> element (the loop breaks) or not (line 83
  raises).
\<close>

theorem ban_discards_buffer:
  assumes "roundtrip E"
    and "distinct (list_of_set E report_links)"
    and "pending E report_links w = pre @ href # post"
    and "scrape_loop E (length (pending E report_links w)) 0 pre (loop_entry E report_links w)
           = (Completed, st)"
    and "startswith href erowid"
    and "driver_load E href = Loaded pg"
    and "contains ban_signature (page_source pg)"
  shows "reports_file (snd (scrape_erowid_reports E report_links w)) = reports_file (wld st) \<and>
         flushes (console (snd (scrape_erowid_reports E report_links w)))
           = flushes (console (wld st)) \<and>
         Link ` set (all_data st)
           \<inter> Link ` set (report_table E (snd (scrape_erowid_reports E report_links w))) = {} \<and>
         Link ` set (all_data st)
           \<inter> Link ` set (report_table E (remove_duplicates_from_csv E
                 (snd (scrape_erowid_reports E report_links w)))) = {}"
proof -
  let ?ps = "pending E report_links w"
  let ?s0 = "loop_entry E report_links w"
  let ?w = "snd (scrape_erowid_reports E report_links w)"
  define n where "n = length ?ps"
  from distinct_pending [OF assms(2), of w] assms(3) have "href \<notin> set pre"
    by simp
  moreover from pending_fresh [of E report_links w] assms(3)
  have "href \<notin> load_scraped_links E w"
    by auto
  moreover from loop_scraped [of E n 0 pre ?s0] assms(4)
  have "scraped_links st \<subseteq> load_scraped_links E w \<union> set pre"
    by (simp add: loop_entry_simps n_def)
  ultimately have fresh: "href \<notin> scraped_links st"
    by auto
  note b = loop_banned [OF fresh assms(5,6,7), of n "length pre" post]
  from assms(4) have "scrape_loop E n 0 (pre @ href # post) ?s0
      = scrape_loop E n (length pre) (href # post) st"
    by (simp add: loop_append n_def del: scrape_loop.simps)
  with assms(3) have l: "scrape_loop E (length ?ps) 0 ?ps ?s0
      = scrape_loop E n (length pre) (href # post) st"
    by (simp add: n_def)
  obtain r st' where r: "scrape_loop E n (length pre) (href # post) st = (r, st')"
    by (cases "scrape_loop E n (length pre) (href # post) st")
  from b r have e: "reports_file (wld st') = reports_file (wld st)"
    "flushes (console (wld st')) = flushes (console (wld st))"
    by simp_all
  from scrape_after_loop [of E report_links w r st'] l r e
  have f: "reports_file ?w = reports_file (wld st)"
    "flushes (console ?w) = flushes (console (wld st))"
    by simp_all
  from buffer_fresh_loop [OF assms(1) buffer_fresh_entry, of n 0 pre report_links w] assms(4)
  have "buffer_fresh E st"
    by (simp add: n_def)
  then have "Link ` set (all_data st) \<inter> Link ` set (report_table E (wld st)) = {}"
    by (simp add: buffer_fresh_def)
  with report_table_cong [OF f(1), of E]
  have d: "Link ` set (all_data st) \<inter> Link ` set (report_table E ?w) = {}"
    by simp
  with f Link_table_cleanup [OF assms(1), of ?w] show ?thesis
    by simp
qed

lemma page_blocked_banned:
  "contains ban_signature (page_source page_blocked)"
  "contains ban_signature (page_source page_blocked_plain)"
  by (simp_all add: page_blocked_def page_blocked_plain_def ban_signature_def startswith_def)

theorem ban_discards_buffer_witness:
  "roundtrip (demo_env web_a_then_blocked) \<and>
   distinct (list_of_set (demo_env web_a_then_blocked) [link_a, link_c]) \<and>
   pending (demo_env web_a_then_blocked) [link_a, link_c] fresh_world = [link_a] @ link_c # [] \<and>
   scrape_loop (demo_env web_a_then_blocked)
       (length (pending (demo_env web_a_then_blocked) [link_a, link_c] fresh_world)) 0 [link_a]
       (loop_entry (demo_env web_a_then_blocked) [link_a, link_c] fresh_world)
     = (Completed, extracted page_report link_a
         (loop_entry (demo_env web_a_then_blocked) [link_a, link_c] fresh_world)) \<and>
   startswith link_c erowid \<and>
   driver_load (demo_env web_a_then_blocked) link_c = Loaded page_blocked \<and>
   contains ban_signature (page_source page_blocked) \<and>
   all_data (extracted page_report link_a
       (loop_entry (demo_env web_a_then_blocked) [link_a, link_c] fresh_world))
     = [extract_fields page_report link_a] \<and>
   reports_file (snd (scrape_erowid_reports (demo_env web_a_then_blocked) [link_a, link_c] fresh_world))
     = None \<and>
   Some link_a \<notin> Link ` set (report_table (demo_env web_a_then_blocked)
     (remove_duplicates_from_csv (demo_env web_a_then_blocked)
       (snd (scrape_erowid_reports (demo_env web_a_then_blocked) [link_a, link_c] fresh_world))))"
proof -
  let ?E = "demo_env web_a_then_blocked"
  let ?ls = "[link_a, link_c]"
  let ?s0 = "loop_entry ?E ?ls fresh_world"
  let ?st = "extracted page_report link_a ?s0"
  have r: "roundtrip ?E"
    by (rule roundtrip_demo_env)
  have d: "distinct (list_of_set ?E ?ls)"
    by (simp add: demo_env_def)
  have p: "pending ?E ?ls fresh_world = [link_a] @ link_c # []"
    using links_differ by (simp add: pending_fresh_world)
  have la: "driver_load ?E link_a = Loaded page_report" "driver_load ?E link_c = Loaded page_blocked"
    using links_differ by (simp_all add: demo_env_def web_a_then_blocked_def)
  have ea: "extractable ?E link_a"
    by (simp add: extractable_def links_valid la page_report_plain)
  have s0: "scraped_links ?s0 = {}"
    by (simp add: loop_entry_simps scraped_links_fresh_world)
  have b: "body ?E (Suc (Suc 0)) 0 link_a ?s0 = Next ?st"
    by (simp add: body_extracted [OF _ ea la(1)] s0 BATCH_SIZE_def)
  have l: "scrape_loop ?E (length (pending ?E ?ls fresh_world)) 0 [link_a] ?s0 = (Completed, ?st)"
    by (simp add: p b)
  have a: "all_data ?st = [extract_fields page_report link_a]"
    by (simp add: extracted_simps loop_entry_simps)
  have n: "reports_file (wld ?st) = None"
    by (simp add: extracted_simps loop_entry_simps world_simps fresh_world_def)
  note t = ban_discards_buffer [OF r d p l links_valid(3) la(2) page_blocked_banned(1)]
  from t n have f: "reports_file (snd (scrape_erowid_reports ?E ?ls fresh_world)) = None"
    by simp
  from t have "Link ` set (all_data ?st) \<inter> Link ` set (report_table ?E
      (remove_duplicates_from_csv ?E (snd (scrape_erowid_reports ?E ?ls fresh_world)))) = {}"
    by blast
  then have g: "Some link_a \<notin> Link ` set (report_table ?E
      (remove_duplicates_from_csv ?E (snd (scrape_erowid_reports ?E ?ls fresh_world))))"
    by (simp add: a Link_extract_fields)
  from r d p l links_valid(3) la(2) page_blocked_banned(1) a f g show ?thesis
    by blast
qed

text \<open>
  On a ban page that has an \<open>h2\<close> element the loop stops at once and calls
  \<open>driver.quit\<close> (line 86); line 149 then calls it a second time.
\<close>

lemma ban_with_h2_releases_browser:
  assumes "href \<notin> scraped_links st" and "startswith href erowid"
    and "driver_load E href = Loaded pg" and "contains ban_signature (page_source pg)"
    and "h2 pg = Some t"
  shows "fst (scrape_loop E n i (href # rest) st) = Banned \<and>
         driver_quits (wld (snd (scrape_loop E n i (href # rest) st))) = Suc (driver_quits (wld st)) \<and>
         driver_gets (wld (snd (scrape_loop E n i (href # rest) st))) = driver_gets (wld st) @ [href]"
  by (simp add: body_banned [OF assms(1-4)] assms(5) on_world_simps world_simps)

text \<open>
  C5 fails on a page that carries the ban signature and has no \<open>h2\<close> element:
  \<open>soup.find("h2")\<close> is \<open>None\<close>, line 83 raises AttributeError outside every
  \<open>try\<close>, and the script ends with that error without a call of \<open>driver.quit\<close>.
\<close>

theorem ban_page_without_h2_crashes:
  "contains ban_signature (page_source page_blocked_plain) \<and>
   h2 page_blocked_plain = None \<and>
   scrape_erowid_reports (demo_env (\<lambda>h. Loaded page_blocked_plain)) [link_c] fresh_world
     = (Some AttributeError, driver_get link_c (print (Remaining 1) fresh_world)) \<and>
   driver_quits (snd (scrape_erowid_reports (demo_env (\<lambda>h. Loaded page_blocked_plain))
     [link_c] fresh_world)) = 0 \<and>
   fst (main (demo_env (\<lambda>h. Loaded page_blocked_plain)) (fresh_world\<lparr>links_file := Some link_c\<rparr>))
     = Some AttributeError \<and>
   driver_quits (snd (main (demo_env (\<lambda>h. Loaded page_blocked_plain))
     (fresh_world\<lparr>links_file := Some link_c\<rparr>))) = 0"
proof -
  let ?E = "demo_env (\<lambda>h. Loaded page_blocked_plain)"
  have h: "h2 page_blocked_plain = None"
    by (simp add: page_blocked_plain_def)
  have ld: "driver_load ?E link_c = Loaded page_blocked_plain"
    by (simp add: demo_env_def)
  have b: "body ?E n 0 link_c st = Raise AttributeError (on_world (driver_get link_c) st)"
    if "scraped_links st = {}" for n and st :: "table scrape_state"
    using that by (simp add: body_banned [OF _ links_valid(3) ld page_blocked_banned(2)] h)
  have e: "load_scraped_links ?E w = {}" if "reports_file w = None" for w
    using that by (simp add: load_scraped_links_def)
  have p: "pending ?E [link_c] w = [link_c]" if "reports_file w = None" for w
    by (simp add: pending_def e [OF that]) (simp add: demo_env_def)
  have s: "scrape_erowid_reports ?E [link_c] w
      = (Some AttributeError, driver_get link_c (print (Remaining 1) w))"
    if "reports_file w = None" for w
    by (simp add: scrape_erowid_reports_loop p [OF that] b loop_entry_simps e [OF that]
        on_world_simps)
  have s0: "scrape_erowid_reports ?E [link_c] fresh_world
      = (Some AttributeError, driver_get link_c (print (Remaining 1) fresh_world))"
    by (rule s) (simp add: fresh_world_def)
  have sl: "splitlines link_c = [link_c]"
    by (simp add: splitlines_def link_c_def linebreak_def)
  have g: "get_all_report_links ?E BASE_URL (fresh_world\<lparr>links_file := Some link_c\<rparr>)
      = (Inr [link_c], print Loading_existing_links (fresh_world\<lparr>links_file := Some link_c\<rparr>))"
    by (simp add: get_all_report_links_def sl) (simp add: demo_env_def)
  have rf: "reports_file (print Loading_existing_links (fresh_world\<lparr>links_file := Some link_c\<rparr>))
      = None"
    by (simp add: world_simps fresh_world_def)
  have m: "main ?E (fresh_world\<lparr>links_file := Some link_c\<rparr>)
      = (Some AttributeError, driver_get link_c (print (Remaining 1)
          (print Loading_existing_links (fresh_world\<lparr>links_file := Some link_c\<rparr>))))"
    by (simp add: main_def g s [OF rf])
  show ?thesis
    by (simp add: page_blocked_banned h s0 m world_simps) (simp add: fresh_world_def)
qed

subsection \<open>Flushes and records\<close>






end
